theory Spec2Isabelle
  imports Main
begin

section \<open>The master service manager (master\_service\_manager.py)\<close>

text \<open>
  A shallow embedding of \<^verbatim>\<open>MasterServiceManager\<close>. The manager mutates a dictionary
  of per-service dictionaries; here every method takes the state it reads and returns the
  state it leaves. Everything the methods learn from outside the program (whether a pid
  is running, whether a script exists, what \<^verbatim>\<open>Popen\<close> and \<^verbatim>\<open>poll\<close> return, the clock)
  is an explicit observation argument, and everything they do to the outside (sleeping,
  spawning, signalling, writing the status file) is an entry of the returned event list.
\<close>

subsection \<open>Dates: the part of Python's datetime that the scheduler uses\<close>

record datetime =
  year :: int
  month :: int
  day :: int
  hour :: int
  minute :: int
  second :: int

text \<open>
  \<^verbatim>\<open>date.weekday()\<close> of the standard library: Monday is 0, computed from the proleptic
  Gregorian ordinal (\<^verbatim>\<open>_ymd2ord\<close>, \<^verbatim>\<open>_days_before_year\<close>, \<^verbatim>\<open>_days_before_month\<close>).
\<close>

definition is_leap :: "int \<Rightarrow> bool" where
  "is_leap y = (y mod 4 = 0 \<and> (y mod 100 \<noteq> 0 \<or> y mod 400 = 0))"

definition days_before_year :: "int \<Rightarrow> int" where
  "days_before_year y = (let p = y - 1 in p * 365 + p div 4 - p div 100 + p div 400)"

definition days_before_month :: "int \<Rightarrow> int \<Rightarrow> int" where
  "days_before_month y m =
     (if 1 \<le> m \<and> m \<le> 12
      then [0, 31, 59, 90, 120, 151, 181, 212, 243, 273, 304, 334] ! nat (m - 1)
           + (if m > 2 \<and> is_leap y then 1 else 0)
      else 0)"

definition toordinal :: "datetime \<Rightarrow> int" where
  "toordinal d = days_before_year (year d) + days_before_month (year d) (month d) + day d"

definition weekday :: "datetime \<Rightarrow> int" where
  "weekday d = (toordinal d + 6) mod 7"

definition date_of :: "datetime \<Rightarrow> int \<times> int \<times> int" where
  "date_of d = (year d, month d, day d)"

text \<open>
  \<^verbatim>\<open>first_day = today.replace(day=1)\<close>,
  \<^verbatim>\<open>first_monday = first_day + timedelta(days=(7 - first_day.weekday()) % 7)\<close>.
  The offset is between 0 and 6, so the sum is day \<open>1 + offset\<close> of the same month and
  the addition never carries into the month.
\<close>

definition first_day :: "datetime \<Rightarrow> datetime" where
  "first_day today = today\<lparr>day := 1\<rparr>"

definition first_monday :: "datetime \<Rightarrow> datetime" where
  "first_monday today =
     (let fd = first_day today in fd\<lparr>day := day fd + (7 - weekday fd) mod 7\<rparr>)"

subsection \<open>Service records\<close>

text \<open>A \<^verbatim>\<open>subprocess.Popen\<close> object; the manager only ever reads its pid and polls it.\<close>

datatype popen = Popen (popen_pid: int)

text \<open>
  One entry of \<^verbatim>\<open>self.services\<close>. The two counters start at 0 and are only ever
  reset to 0 or incremented, so they are natural numbers. \<^verbatim>\<open>status\<close> is the string
  the code stores: \<^verbatim>\<open>stopped\<close>, \<^verbatim>\<open>running\<close>, \<^verbatim>\<open>error\<close> or \<^verbatim>\<open>died\<close>.
\<close>

record service =
  name :: string
  script :: string
  working_dir :: string
  python_path :: string
  process :: "popen option"
  pid :: "int option"
  status :: string
  restart_count :: nat
  last_restart :: "string option"
  last_health_check :: "string option"
  consecutive_failures :: nat

text \<open>Python's truth value of \<^verbatim>\<open>service["pid"]\<close>: neither \<^verbatim>\<open>None\<close> nor 0.\<close>

definition truthy :: "int option \<Rightarrow> bool" where
  "truthy p = (case p of None \<Rightarrow> False | Some n \<Rightarrow> n \<noteq> 0)"

subsection \<open>The persisted status record\<close>

text \<open>
  The JSON object of \<^verbatim>\<open>update_status\<close>; the fields carry the JSON keys with a prefix.
  \<^verbatim>\<open>last_monthly_restart\<close> is kept as the datetime whose \<^verbatim>\<open>isoformat()\<close> is written.
\<close>

record service_entry =
  e_name :: string
  e_status :: string
  e_pid :: "int option"
  e_restart_count :: nat
  e_last_restart :: "string option"
  e_last_health_check :: "string option"
  e_consecutive_failures :: nat

record status_data =
  sd_manager_pid :: int
  sd_last_update :: string
  sd_last_monthly_restart :: "datetime option"
  sd_services :: "(string \<times> service_entry) list"

subsection \<open>Effects\<close>

datatype event =
    Sleep nat
  | PopenCall string string
  | Terminate int
  | Kill int
  | WriteStatus status_data
  | ScheduledRestart datetime

text \<open>
  \<^verbatim>\<open>Sleep n\<close> is \<^verbatim>\<open>time.sleep(n)\<close>; \<^verbatim>\<open>PopenCall cwd script\<close> is a call of
  \<^verbatim>\<open>subprocess.Popen\<close>; \<^verbatim>\<open>Terminate\<close> is the graceful signal (\<^verbatim>\<open>terminate()\<close> or
  SIGTERM) and \<^verbatim>\<open>Kill\<close> is \<^verbatim>\<open>kill()\<close>; \<^verbatim>\<open>WriteStatus\<close> is a completed dump of the status
  file; \<^verbatim>\<open>ScheduledRestart\<close> is the log line that opens a monthly restart.
\<close>

subsection \<open>start\_service\<close>

record start_obs =
  pid_running :: bool
  script_exists :: bool
  spawned :: "popen option"
  poll_after :: "int option"
  started_at :: string

text \<open>
  \<^verbatim>\<open>pid_running\<close>: \<^verbatim>\<open>is_process_running(service["pid"])\<close>, which swallows every
  exception; \<^verbatim>\<open>script_exists\<close>: \<^verbatim>\<open>script_path.exists()\<close>; \<^verbatim>\<open>spawned\<close>: the object
  \<^verbatim>\<open>Popen\<close> returns, \<^verbatim>\<open>None\<close> when it raises; \<^verbatim>\<open>poll_after\<close>: \<^verbatim>\<open>process.poll()\<close>
  after the five seconds, \<^verbatim>\<open>None\<close> while the process runs and its exit code otherwise;
  \<^verbatim>\<open>started_at\<close>: \<^verbatim>\<open>datetime.now().isoformat()\<close>.
\<close>

definition start_service :: "start_obs \<Rightarrow> service \<Rightarrow> bool \<times> service \<times> event list" where
  "start_service ob s =
     (if truthy (pid s) \<and> pid_running ob
      then (True, s\<lparr>status := ''running'', consecutive_failures := 0\<rparr>, [])
      else if \<not> script_exists ob
      then (False, s\<lparr>status := ''error'',
                      consecutive_failures := consecutive_failures s + 1\<rparr>, [])
      else (case spawned ob of
              None \<Rightarrow>
                (False, s\<lparr>status := ''error'',
                          consecutive_failures := consecutive_failures s + 1\<rparr>,
                 [PopenCall (working_dir s) (script s)])
            | Some p \<Rightarrow>
                (case poll_after ob of
                   None \<Rightarrow>
                     (True, s\<lparr>process := Some p, pid := Some (popen_pid p),
                              status := ''running'',
                              restart_count := restart_count s + 1,
                              last_restart := Some (started_at ob),
                              consecutive_failures := 0\<rparr>,
                      [PopenCall (working_dir s) (script s), Sleep 5])
                 | Some code \<Rightarrow>
                     (False, s\<lparr>status := ''error'',
                               consecutive_failures := consecutive_failures s + 1\<rparr>,
                      [PopenCall (working_dir s) (script s), Sleep 5]))))"

subsection \<open>stop\_service\<close>

datatype stop_outcome =
    SignalRaises
  | ExitsInGrace
  | WaitRaises
  | KilledAfterTimeout
  | KillRaises

record stop_obs =
  poll :: "int option"
  outcome :: stop_outcome

text \<open>
  \<^verbatim>\<open>poll\<close>: \<^verbatim>\<open>service["process"].poll()\<close>, read only when a process object is stored;
  \<^verbatim>\<open>outcome\<close>: how the shutdown of a live process goes. An exception anywhere in the
  \<^verbatim>\<open>try\<close> block is caught, nothing is written to the record and the method returns
  \<^verbatim>\<open>False\<close>.
\<close>

definition stop_service :: "stop_obs \<Rightarrow> service \<Rightarrow> bool \<times> service \<times> event list" where
  "stop_service ob s =
     (case process s of
        Some p \<Rightarrow>
          (if poll ob = None
           then (case outcome ob of
                   SignalRaises \<Rightarrow> (False, s, [])
                 | ExitsInGrace \<Rightarrow>
                     (True, s\<lparr>process := None, pid := None, status := ''stopped''\<rparr>,
                      [Terminate (popen_pid p)])
                 | WaitRaises \<Rightarrow> (False, s, [Terminate (popen_pid p)])
                 | KilledAfterTimeout \<Rightarrow>
                     (True, s\<lparr>process := None, pid := None, status := ''stopped''\<rparr>,
                      [Terminate (popen_pid p), Kill (popen_pid p)])
                 | KillRaises \<Rightarrow> (False, s, [Terminate (popen_pid p)]))
           else (True, s\<lparr>status := ''stopped'', pid := None\<rparr>, []))
      | None \<Rightarrow> (True, s\<lparr>status := ''stopped'', pid := None\<rparr>, []))"

text \<open>\<^verbatim>\<open>restart_service\<close>: stop, two seconds, start; the result of the stop is dropped.\<close>

definition restart_service ::
  "stop_obs \<Rightarrow> start_obs \<Rightarrow> service \<Rightarrow> bool \<times> service \<times> event list" where
  "restart_service sob ob s =
     (case stop_service sob s of
        (_, s1, ev1) \<Rightarrow>
          (case start_service ob s1 of
             (r, s2, ev2) \<Rightarrow> (r, s2, ev1 @ [Sleep 2] @ ev2)))"

subsection \<open>check\_service\_health\<close>

record health_obs =
  checked_at :: string
  alive :: bool

definition check_service_health :: "health_obs \<Rightarrow> service \<Rightarrow> bool \<times> service" where
  "check_service_health ob s =
     (let s1 = s\<lparr>last_health_check := Some (checked_at ob)\<rparr>
      in if \<not> truthy (pid s1) then (False, s1)
         else if \<not> alive ob
         then (False, s1\<lparr>status := ''died'', pid := None, process := None,
                          consecutive_failures := consecutive_failures s1 + 1\<rparr>)
         else (True, s1\<lparr>status := ''running'', consecutive_failures := 0\<rparr>))"

subsection \<open>The body of the monitoring loop for one service\<close>

text \<open>
  The sleep that the loop takes for a service that died, as a function of its failure
  count: \<^verbatim>\<open>2 ** consecutive_failures\<close> up to 3 failures, 60 seconds beyond.
\<close>

definition backoff_delay :: "nat \<Rightarrow> nat" where
  "backoff_delay n = (if n \<le> 3 then 2 ^ n else 60)"

record svc_obs =
  health :: health_obs
  restart :: start_obs

definition monitor_service :: "svc_obs \<Rightarrow> service \<Rightarrow> service \<times> event list" where
  "monitor_service ob s =
     (case check_service_health (health ob) s of
        (ok, s1) \<Rightarrow>
          if \<not> ok then
            (if status s1 = ''died'' then
               (if consecutive_failures s1 \<le> 3
                then (case start_service (restart ob) s1 of
                        (_, s2, ev) \<Rightarrow> (s2, Sleep (2 ^ consecutive_failures s1) # ev))
                else (s1, [Sleep 60]))
             else (s1, []))
          else (s1, []))"

subsection \<open>The manager\<close>

record manager =
  services :: "(string \<times> service) list"
  running :: bool
  last_monthly_restart :: "datetime option"

text \<open>
  \<^verbatim>\<open>self.services\<close> is a dictionary that is filled once in \<^verbatim>\<open>__init__\<close>; no key is
  added or removed afterwards, and the loops visit it in insertion order. It is an
  association list here, and each loop rewrites the entries in place.
\<close>

definition new_service :: "string \<Rightarrow> string \<Rightarrow> string \<Rightarrow> string \<Rightarrow> service" where
  "new_service n scr wd pp =
     \<lparr>name = n, script = scr, working_dir = wd, python_path = pp,
      process = None, pid = None, status = ''stopped'', restart_count = 0,
      last_restart = None, last_health_check = None, consecutive_failures = 0\<rparr>"

definition init_manager :: "string \<Rightarrow> manager" where
  "init_manager base_dir =
     \<lparr>services =
        [(''discord_bot'',
          new_service ''Discord Bot (DBSBM)'' ''main.py''
            (base_dir @ ''/DBSBM/bot'') (base_dir @ ''/DBSBM'')),
         (''web_server'',
          new_service ''Web Server (DBSBMWEB)'' ''flask_service.py''
            (base_dir @ ''/DBSBMWEB'') (base_dir @ ''/DBSBMWEB'')),
         (''web_proxy'',
          new_service ''Web Proxy (Port 80)'' ''port80_proxy.py''
            (base_dir @ ''/DBSBMWEB'') (base_dir @ ''/DBSBMWEB''))],
      running = False,
      last_monthly_restart = None\<rparr>"

subsection \<open>update\_status\<close>

record write_obs =
  getpid :: int
  now_iso :: string
  write_ok :: bool

text \<open>
  \<^verbatim>\<open>write_ok\<close> is false when opening or dumping the file raises; the exception is
  caught and logged, and nothing is persisted.
\<close>

definition entry_of :: "service \<Rightarrow> service_entry" where
  "entry_of s =
     \<lparr>e_name = name s, e_status = status s, e_pid = pid s,
      e_restart_count = restart_count s, e_last_restart = last_restart s,
      e_last_health_check = last_health_check s,
      e_consecutive_failures = consecutive_failures s\<rparr>"

definition build_status :: "write_obs \<Rightarrow> manager \<Rightarrow> status_data" where
  "build_status w m =
     \<lparr>sd_manager_pid = getpid w, sd_last_update = now_iso w,
      sd_last_monthly_restart = last_monthly_restart m,
      sd_services = map (\<lambda>(k, s). (k, entry_of s)) (services m)\<rparr>"

definition update_status :: "write_obs \<Rightarrow> manager \<Rightarrow> event list" where
  "update_status w m = (if write_ok w then [WriteStatus (build_status w m)] else [])"

subsection \<open>Starting, stopping and restarting every service\<close>

fun stop_each ::
  "(string \<Rightarrow> stop_obs) \<Rightarrow> (string \<times> service) list \<Rightarrow> (string \<times> service) list \<times> event list" where
  "stop_each f [] = ([], [])"
| "stop_each f ((k, s) # rest) =
     (case stop_service (f k) s of
        (_, s', ev) \<Rightarrow>
          (case stop_each f rest of
             (rest', ev') \<Rightarrow> ((k, s') # rest', ev @ ev')))"

fun start_each ::
  "(string \<Rightarrow> start_obs) \<Rightarrow> (string \<times> service) list
     \<Rightarrow> (string \<times> service) list \<times> nat \<times> event list" where
  "start_each f [] = ([], 0, [])"
| "start_each f ((k, s) # rest) =
     (case start_service (f k) s of
        (r, s', ev) \<Rightarrow>
          (case start_each f rest of
             (rest', n, ev') \<Rightarrow> ((k, s') # rest', (if r then n + 1 else n), ev @ ev')))"

definition stop_all_services ::
  "(string \<Rightarrow> stop_obs) \<Rightarrow> write_obs \<Rightarrow> manager \<Rightarrow> manager \<times> event list" where
  "stop_all_services f w m =
     (case stop_each f (services m) of
        (svcs, ev) \<Rightarrow>
          (let m1 = m\<lparr>services := svcs\<rparr> in (m1, ev @ update_status w m1)))"

definition start_all_services ::
  "(string \<Rightarrow> start_obs) \<Rightarrow> write_obs \<Rightarrow> manager \<Rightarrow> bool \<times> manager \<times> event list" where
  "start_all_services f w m =
     (case start_each f (services m) of
        (svcs, success_count, ev) \<Rightarrow>
          (let m1 = m\<lparr>services := svcs\<rparr>
           in (success_count = length (services m1), m1, ev @ update_status w m1)))"

record cycle_obs =
  stop_of :: "string \<Rightarrow> stop_obs"
  write_after_stop :: write_obs
  start_of :: "string \<Rightarrow> start_obs"
  write_after_start :: write_obs

definition restart_all_services :: "cycle_obs \<Rightarrow> manager \<Rightarrow> manager \<times> event list" where
  "restart_all_services c m =
     (case stop_all_services (stop_of c) (write_after_stop c) m of
        (m1, ev1) \<Rightarrow>
          (case start_all_services (start_of c) (write_after_start c) m1 of
             (_, m2, ev2) \<Rightarrow> (m2, ev1 @ [Sleep 5] @ ev2)))"

subsection \<open>check\_monthly\_restart\<close>

definition monthly_restart_due :: "datetime \<Rightarrow> manager \<Rightarrow> bool" where
  "monthly_restart_due today m =
     (date_of today = date_of (first_monday today) \<and>
      (case last_monthly_restart m of
         None \<Rightarrow> True
       | Some l \<Rightarrow> month l \<noteq> month today \<or> year l \<noteq> year today))"

definition check_monthly_restart ::
  "datetime \<Rightarrow> cycle_obs \<Rightarrow> manager \<Rightarrow> manager \<times> event list" where
  "check_monthly_restart today c m =
     (if monthly_restart_due today m
      then (case restart_all_services c (m\<lparr>last_monthly_restart := Some today\<rparr>) of
              (m', ev) \<Rightarrow> (m', ScheduledRestart today # ev))
      else (m, []))"

text \<open>
  A restart cycle that an exception cuts short. The cycle touches the manager once per
  service in each of its two loops; \<^verbatim>\<open>InStopAll i\<close> and \<^verbatim>\<open>InStartAll i\<close> leave the cycle
  when \<open>i\<close> services of that loop are done, \<^verbatim>\<open>BetweenLoops\<close> leaves it in the pause, and
  \<^verbatim>\<open>Completed\<close> is the whole cycle. \<^verbatim>\<open>check_monthly_restart\<close> has no handler of its own,
  so the manager is left as the cycle left it.
\<close>

datatype cut = InStopAll nat | BetweenLoops | InStartAll nat | Completed

definition restart_all_interrupted :: "cut \<Rightarrow> cycle_obs \<Rightarrow> manager \<Rightarrow> manager" where
  "restart_all_interrupted ct c m =
     (case ct of
        InStopAll i \<Rightarrow>
          m\<lparr>services := fst (stop_each (stop_of c) (take i (services m))) @ drop i (services m)\<rparr>
      | BetweenLoops \<Rightarrow> fst (stop_all_services (stop_of c) (write_after_stop c) m)
      | InStartAll i \<Rightarrow>
          (let m1 = fst (stop_all_services (stop_of c) (write_after_stop c) m)
           in m1\<lparr>services :=
                   fst (start_each (start_of c) (take i (services m1))) @ drop i (services m1)\<rparr>)
      | Completed \<Rightarrow> fst (restart_all_services c m))"

definition check_monthly_restart_interrupted ::
  "cut \<Rightarrow> datetime \<Rightarrow> cycle_obs \<Rightarrow> manager \<Rightarrow> manager" where
  "check_monthly_restart_interrupted ct today c m =
     (if monthly_restart_due today m
      then restart_all_interrupted ct c (m\<lparr>last_monthly_restart := Some today\<rparr>)
      else m)"

subsection \<open>monitor\_services\<close>

record tick_obs =
  now :: datetime
  job_due :: bool
  cycle :: cycle_obs
  svc :: "string \<Rightarrow> svc_obs"
  status_write :: write_obs

text \<open>
  \<^verbatim>\<open>job_due\<close>: whether \<^verbatim>\<open>schedule.run_pending()\<close> finds the Monday 03:00 job pending and
  calls \<^verbatim>\<open>check_monthly_restart\<close>, which then reads the clock (\<^verbatim>\<open>now\<close>).
\<close>

definition run_pending :: "tick_obs \<Rightarrow> manager \<Rightarrow> manager \<times> event list" where
  "run_pending ob m =
     (if job_due ob then check_monthly_restart (now ob) (cycle ob) m else (m, []))"

fun monitor_each ::
  "(string \<Rightarrow> svc_obs) \<Rightarrow> (string \<times> service) list \<Rightarrow> (string \<times> service) list \<times> event list" where
  "monitor_each f [] = ([], [])"
| "monitor_each f ((k, s) # rest) =
     (case monitor_service (f k) s of
        (s', ev) \<Rightarrow>
          (case monitor_each f rest of
             (rest', ev') \<Rightarrow> ((k, s') # rest', ev @ ev')))"

text \<open>
  One iteration of the \<^verbatim>\<open>while self.running\<close> loop. Every method it calls catches
  its own exceptions, so the handler at the loop boundary has no branch here.
\<close>

definition tick :: "tick_obs \<Rightarrow> manager \<Rightarrow> manager \<times> event list" where
  "tick ob m =
     (case run_pending ob m of
        (m1, ev1) \<Rightarrow>
          (case monitor_each (svc ob) (services m1) of
             (svcs, ev2) \<Rightarrow>
               (let m2 = m1\<lparr>services := svcs\<rparr>
                in (m2, ev1 @ ev2 @ update_status (status_write ob) m2 @ [Sleep 30]))))"

text \<open>
  The loop over a finite prefix of what the outside world answers, one \<^verbatim>\<open>tick_obs\<close> per
  iteration; it leaves as soon as \<^verbatim>\<open>self.running\<close> is false.
\<close>

fun monitor_services :: "tick_obs list \<Rightarrow> manager \<Rightarrow> manager \<times> event list" where
  "monitor_services [] m = (m, [])"
| "monitor_services (ob # obs) m =
     (if running m
      then (case tick ob m of
              (m1, ev1) \<Rightarrow>
                (case monitor_services obs m1 of
                   (m2, ev2) \<Rightarrow> (m2, ev1 @ ev2)))
      else (m, []))"

text \<open>The same loop as one service sees it: its health check and restart, pass after pass.\<close>

fun monitor_passes :: "svc_obs list \<Rightarrow> service \<Rightarrow> service \<times> event list" where
  "monitor_passes [] s = (s, [])"
| "monitor_passes (ob # obs) s =
     (case monitor_service ob s of
        (s1, ev1) \<Rightarrow>
          (case monitor_passes obs s1 of
             (s2, ev2) \<Rightarrow> (s2, ev1 @ ev2)))"

subsection \<open>Histories of one service\<close>






subsection \<open>Counting monthly restarts in a trace\<close>

definition restarts_in :: "int \<Rightarrow> int \<Rightarrow> event list \<Rightarrow> nat" where
  "restarts_in y mo evs =
     length (filter (\<lambda>e. case e of ScheduledRestart t \<Rightarrow> year t = y \<and> month t = mo
                                | _ \<Rightarrow> False) evs)"

text \<open>Calendar months in order: the clock of a run does not go back over a month.\<close>

definition month_le :: "datetime \<Rightarrow> datetime \<Rightarrow> bool" where
  "month_le a b = (year a < year b \<or> (year a = year b \<and> month a \<le> month b))"

definition chronological :: "tick_obs list \<Rightarrow> bool" where
  "chronological obs = sorted_wrt (\<lambda>a b. month_le (now a) (now b)) obs"

subsection \<open>Counting launches in a trace\<close>

definition popen_calls :: "event list \<Rightarrow> nat" where
  "popen_calls evs =
     length (filter (\<lambda>e. case e of PopenCall _ _ \<Rightarrow> True | _ \<Rightarrow> False) evs)"

subsection \<open>The status records in a trace\<close>

definition status_writes :: "event list \<Rightarrow> status_data list" where
  "status_writes evs =
     concat (map (\<lambda>e. case e of WriteStatus d \<Rightarrow> [d] | _ \<Rightarrow> []) evs)"

subsection \<open>Records as the manager's own calls leave them\<close>

text \<open>
  A record with a pid has no failure counted (a pid is only stored by a successful start,
  which resets the count), and a record without one is not \<^verbatim>\<open>died\<close> between two passes
  of the loop. The records of \<^verbatim>\<open>__init__\<close> are such, and so is a record after a
  successful start.
\<close>

definition settled :: "service \<Rightarrow> bool" where
  "settled s =
     (if truthy (pid s) then consecutive_failures s = 0 else status s \<noteq> ''died'')"

subsection \<open>Concrete scenarios\<close>

definition web_server :: service where
  "web_server =
     new_service ''Web Server (DBSBMWEB)'' ''flask_service.py'' ''/srv/DBSBMWEB'' ''/srv/DBSBMWEB''"

text \<open>A launch whose process is still running after the five seconds.\<close>

definition launch_ok :: "int \<Rightarrow> start_obs" where
  "launch_ok p =
     \<lparr>pid_running = False, script_exists = True, spawned = Some (Popen p),
      poll_after = None, started_at = ''2026-11-02T09:00:05''\<rparr>"

text \<open>A launch whose process has exited with the given code within the five seconds.\<close>

definition launch_exits :: "int \<Rightarrow> int \<Rightarrow> start_obs" where
  "launch_exits p code =
     \<lparr>pid_running = False, script_exists = True, spawned = Some (Popen p),
      poll_after = Some code, started_at = ''2026-11-02T09:00:05''\<rparr>"


definition script_missing :: start_obs where
  "script_missing =
     \<lparr>pid_running = False, script_exists = False, spawned = None,
      poll_after = None, started_at = ''2026-11-02T09:10:00''\<rparr>"

definition web_server_up :: service where
  "web_server_up = fst (snd (start_service (launch_ok 4242) web_server))"

definition found_dead :: health_obs where
  "found_dead = \<lparr>checked_at = ''2026-11-02T09:00:35'', alive = False\<rparr>"

definition found_alive :: health_obs where
  "found_alive = \<lparr>checked_at = ''2026-11-02T09:00:35'', alive = True\<rparr>"

text \<open>A pass that finds the process dead and then restarts as the second component says.\<close>

definition crash_then :: "start_obs \<Rightarrow> svc_obs" where
  "crash_then r = \<lparr>health = found_dead, restart = r\<rparr>"

text \<open>A stop of a process that has already exited with code 1.\<close>

definition already_exited :: stop_obs where
  "already_exited = \<lparr>poll = Some 1, outcome = ExitsInGrace\<rparr>"


definition stop_clean :: stop_obs where
  "stop_clean = \<lparr>poll = None, outcome = ExitsInGrace\<rparr>"

definition writes :: write_obs where
  "writes = \<lparr>getpid = 1000, now_iso = ''2026-11-02T09:01:00'', write_ok = True\<rparr>"

definition quiet_cycle :: cycle_obs where
  "quiet_cycle =
     \<lparr>stop_of = (\<lambda>_. stop_clean), write_after_stop = writes,
      start_of = (\<lambda>k. launch_ok (5000 + int (length k))), write_after_start = writes\<rparr>"


definition first_monday_nov :: datetime where
  "first_monday_nov = \<lparr>year = 2026, month = 11, day = 2, hour = 3, minute = 0, second = 0\<rparr>"

definition manager_up :: manager where
  "manager_up = (init_manager ''/srv'')\<lparr>running := True\<rparr>"

text \<open>A tick on the first Monday of November 2026 with the monthly job pending.\<close>

definition monday_tick :: tick_obs where
  "monday_tick =
     \<lparr>now = first_monday_nov, job_due = True, cycle = quiet_cycle,
      svc = (\<lambda>_. \<lparr>health = found_alive, restart = launch_ok 6000\<rparr>),
      status_write = writes\<rparr>"

section \<open>Properties\<close>

subsection \<open>Auxiliary facts\<close>

lemma pow2_le_60: "n \<le> 3 \<Longrightarrow> (2::nat) ^ n \<le> 60"
proof -
  assume "n \<le> 3"
  then have "(2::nat) ^ n \<le> 2 ^ 3" by (intro power_increasing) simp_all
  then show ?thesis by simp
qed

lemma check_health_dead:
  "truthy (pid s) \<Longrightarrow> \<not> alive ob \<Longrightarrow>
   check_service_health ob s =
     (False, s\<lparr>last_health_check := Some (checked_at ob), status := ''died'', pid := None,
               process := None, consecutive_failures := consecutive_failures s + 1\<rparr>)"
  by (simp add: check_service_health_def Let_def)

lemma web_server_up_eq:
  "web_server_up = web_server\<lparr>process := Some (Popen 4242), pid := Some 4242,
      status := ''running'', restart_count := 1,
      last_restart := Some ''2026-11-02T09:00:05'', consecutive_failures := 0\<rparr>"
  by (simp add: web_server_up_def start_service_def launch_ok_def web_server_def
      new_service_def truthy_def)

lemma web_server_up_fields:
  "pid web_server_up = Some 4242" "process web_server_up = Some (Popen 4242)"
  "status web_server_up = ''running''" "consecutive_failures web_server_up = 0"
  "restart_count web_server_up = 1" "working_dir web_server_up = ''/srv/DBSBMWEB''"
  "script web_server_up = ''flask_service.py''"
  by (simp_all add: web_server_up_eq web_server_def new_service_def)

subsection \<open>Histories and the restart counter\<close>






subsection \<open>Monthly restarts in a trace\<close>

lemma restarts_in_simps:
  "restarts_in y mo [] = 0"
  "restarts_in y mo (Sleep n # evs) = restarts_in y mo evs"
  "restarts_in y mo (PopenCall a b # evs) = restarts_in y mo evs"
  "restarts_in y mo (Terminate p # evs) = restarts_in y mo evs"
  "restarts_in y mo (Kill p # evs) = restarts_in y mo evs"
  "restarts_in y mo (WriteStatus d # evs) = restarts_in y mo evs"
  "restarts_in y mo (ScheduledRestart t # evs)
     = (if year t = y \<and> month t = mo then 1 else 0) + restarts_in y mo evs"
  by (simp_all add: restarts_in_def)

lemma restarts_in_append:
  "restarts_in y mo (a @ b) = restarts_in y mo a + restarts_in y mo b"
  by (simp add: restarts_in_def)

lemma restarts_in_start_service: "restarts_in y mo (snd (snd (start_service ob s))) = 0"
  by (simp add: start_service_def restarts_in_simps split: option.splits)

lemma restarts_in_stop_service: "restarts_in y mo (snd (snd (stop_service ob s))) = 0"
  by (simp add: stop_service_def restarts_in_simps split: option.splits stop_outcome.splits)

lemma restarts_in_update_status: "restarts_in y mo (update_status w m) = 0"
  by (simp add: update_status_def restarts_in_simps)

lemma restarts_in_stop_each: "restarts_in y mo (snd (stop_each f xs)) = 0"
proof (induction xs)
  case Nil
  then show ?case by (simp add: restarts_in_simps)
next
  case (Cons x xs)
  obtain k s where x: "x = (k, s)" by (cases x)
  show ?case
    using Cons.IH restarts_in_stop_service [of y mo "f k" s]
    by (cases "stop_service (f k) s"; cases "stop_each f xs")
       (simp add: x restarts_in_append)
qed

lemma restarts_in_start_each: "restarts_in y mo (snd (snd (start_each f xs))) = 0"
proof (induction xs)
  case Nil
  then show ?case by (simp add: restarts_in_simps)
next
  case (Cons x xs)
  obtain k s where x: "x = (k, s)" by (cases x)
  show ?case
    using Cons.IH restarts_in_start_service [of y mo "f k" s]
    by (cases "start_service (f k) s"; cases "start_each f xs")
       (simp add: x restarts_in_append)
qed

lemma restarts_in_monitor_service: "restarts_in y mo (snd (monitor_service ob s)) = 0"
proof -
  obtain ok s1 where chk: "check_service_health (health ob) s = (ok, s1)"
    by (cases "check_service_health (health ob) s")
  obtain r s2 ev where st: "start_service (restart ob) s1 = (r, s2, ev)"
    by (cases "start_service (restart ob) s1")
  have "restarts_in y mo ev = 0"
    using restarts_in_start_service [of y mo "restart ob" s1] st by simp
  then show ?thesis
    by (simp add: monitor_service_def chk st restarts_in_simps)
qed

lemma restarts_in_monitor_each: "restarts_in y mo (snd (monitor_each f xs)) = 0"
proof (induction xs)
  case Nil
  then show ?case by (simp add: restarts_in_simps)
next
  case (Cons x xs)
  obtain k s where x: "x = (k, s)" by (cases x)
  show ?case
    using Cons.IH restarts_in_monitor_service [of y mo "f k" s]
    by (cases "monitor_service (f k) s"; cases "monitor_each f xs")
       (simp add: x restarts_in_append)
qed

lemma stop_all_services_frame:
  "last_monthly_restart (fst (stop_all_services f w m)) = last_monthly_restart m"
  "running (fst (stop_all_services f w m)) = running m"
  "restarts_in y mo (snd (stop_all_services f w m)) = 0"
  using restarts_in_stop_each [of y mo f "services m"]
  by (cases "stop_each f (services m)";
      simp add: stop_all_services_def Let_def restarts_in_append restarts_in_update_status)+

lemma start_all_services_frame:
  "last_monthly_restart (fst (snd (start_all_services f w m))) = last_monthly_restart m"
  "running (fst (snd (start_all_services f w m))) = running m"
  "restarts_in y mo (snd (snd (start_all_services f w m))) = 0"
  using restarts_in_start_each [of y mo f "services m"]
  by (cases "start_each f (services m)";
      simp add: start_all_services_def Let_def restarts_in_append restarts_in_update_status)+

lemma restart_all_services_frame:
  "last_monthly_restart (fst (restart_all_services c m)) = last_monthly_restart m"
  "running (fst (restart_all_services c m)) = running m"
  "restarts_in y mo (snd (restart_all_services c m)) = 0"
proof -
  obtain m1 ev1 where st: "stop_all_services (stop_of c) (write_after_stop c) m = (m1, ev1)"
    by (cases "stop_all_services (stop_of c) (write_after_stop c) m")
  obtain r m2 ev2 where sa: "start_all_services (start_of c) (write_after_start c) m1 = (r, m2, ev2)"
    by (cases "start_all_services (start_of c) (write_after_start c) m1")
  have eq: "restart_all_services c m = (m2, ev1 @ [Sleep 5] @ ev2)"
    by (simp add: restart_all_services_def st sa)
  have "m1 = fst (stop_all_services (stop_of c) (write_after_stop c) m)"
    "ev1 = snd (stop_all_services (stop_of c) (write_after_stop c) m)"
    by (simp_all add: st)
  then have a: "last_monthly_restart m1 = last_monthly_restart m" "running m1 = running m"
    "restarts_in y mo ev1 = 0"
    by (simp_all add: stop_all_services_frame)
  have "m2 = fst (snd (start_all_services (start_of c) (write_after_start c) m1))"
    "ev2 = snd (snd (start_all_services (start_of c) (write_after_start c) m1))"
    by (simp_all add: sa)
  then have b: "last_monthly_restart m2 = last_monthly_restart m1" "running m2 = running m1"
    "restarts_in y mo ev2 = 0"
    by (simp_all add: start_all_services_frame)
  show "last_monthly_restart (fst (restart_all_services c m)) = last_monthly_restart m"
    "running (fst (restart_all_services c m)) = running m"
    "restarts_in y mo (snd (restart_all_services c m)) = 0"
    using a b by (simp_all add: eq restarts_in_append restarts_in_simps)
qed

lemma check_monthly_restart_frame:
  "last_monthly_restart (fst (check_monthly_restart today c m))
     = (if monthly_restart_due today m then Some today else last_monthly_restart m)"
  "running (fst (check_monthly_restart today c m)) = running m"
  "restarts_in y mo (snd (check_monthly_restart today c m))
     = (if monthly_restart_due today m \<and> year today = y \<and> month today = mo then 1 else 0)"
  using restart_all_services_frame(1) [of c "m\<lparr>last_monthly_restart := Some today\<rparr>"]
    restart_all_services_frame(2) [of c "m\<lparr>last_monthly_restart := Some today\<rparr>"]
    restart_all_services_frame(3) [of y mo c "m\<lparr>last_monthly_restart := Some today\<rparr>"]
  by (cases "restart_all_services c (m\<lparr>last_monthly_restart := Some today\<rparr>)";
      simp add: check_monthly_restart_def restarts_in_simps)+

lemma tick_frame:
  "last_monthly_restart (fst (tick ob m))
     = (if job_due ob \<and> monthly_restart_due (now ob) m then Some (now ob)
        else last_monthly_restart m)"
  "running (fst (tick ob m)) = running m"
  "restarts_in y mo (snd (tick ob m))
     = (if job_due ob \<and> monthly_restart_due (now ob) m \<and> year (now ob) = y \<and> month (now ob) = mo
        then 1 else 0)"
proof -
  obtain m1 ev1 where rp: "run_pending ob m = (m1, ev1)" by (cases "run_pending ob m")
  obtain svcs ev2 where me: "monitor_each (svc ob) (services m1) = (svcs, ev2)"
    by (cases "monitor_each (svc ob) (services m1)")
  have eq: "tick ob m = (m1\<lparr>services := svcs\<rparr>,
      ev1 @ ev2 @ update_status (status_write ob) (m1\<lparr>services := svcs\<rparr>) @ [Sleep 30])"
    by (simp add: tick_def rp me Let_def)
  have ev2: "restarts_in y mo ev2 = 0"
    using restarts_in_monitor_each [of y mo "svc ob" "services m1"] me by simp
  have m1: "last_monthly_restart m1
      = (if job_due ob \<and> monthly_restart_due (now ob) m then Some (now ob)
         else last_monthly_restart m)"
    "running m1 = running m"
    "restarts_in y mo ev1
      = (if job_due ob \<and> monthly_restart_due (now ob) m \<and> year (now ob) = y \<and> month (now ob) = mo
         then 1 else 0)"
    using rp check_monthly_restart_frame(1) [of "now ob" "cycle ob" m]
      check_monthly_restart_frame(2) [of "now ob" "cycle ob" m]
      check_monthly_restart_frame(3) [of y mo "now ob" "cycle ob" m]
    by (auto simp: run_pending_def restarts_in_simps split: if_splits)
  show "last_monthly_restart (fst (tick ob m))
     = (if job_due ob \<and> monthly_restart_due (now ob) m then Some (now ob)
        else last_monthly_restart m)"
    using m1(1) by (simp add: eq)
  show "running (fst (tick ob m)) = running m"
    using m1(2) by (simp add: eq)
  show "restarts_in y mo (snd (tick ob m))
     = (if job_due ob \<and> monthly_restart_due (now ob) m \<and> year (now ob) = y \<and> month (now ob) = mo
        then 1 else 0)"
    using m1(3) ev2
    by (simp add: eq restarts_in_append restarts_in_update_status restarts_in_simps)
qed

lemma monitor_services_step:
  "running m \<Longrightarrow>
   snd (monitor_services (ob # obs) m)
     = snd (tick ob m) @ snd (monitor_services obs (fst (tick ob m)))"
  by (simp split: prod.splits)

lemma month_le_refl: "month_le a a"
  by (simp add: month_le_def)

lemma month_le_trans: "month_le a b \<Longrightarrow> month_le b c \<Longrightarrow> month_le a c"
  by (auto simp: month_le_def)

lemma month_le_antisym:
  "month_le a b \<Longrightarrow> month_le b a \<Longrightarrow> year a = year b \<and> month a = month b"
  by (auto simp: month_le_def)

lemma not_due_same_month:
  "last_monthly_restart m = Some l \<Longrightarrow> month l = month today \<Longrightarrow> year l = year today \<Longrightarrow>
   \<not> monthly_restart_due today m"
  by (simp add: monthly_restart_due_def)

lemma no_restart_after_mark:
  assumes "last_monthly_restart m = Some l" and "month_le q l"
    and "\<forall>ob \<in> set obs. month_le l (now ob)" and "chronological obs"
  shows "restarts_in (year q) (month q) (snd (monitor_services obs m)) = 0"
  using assms
proof (induction obs arbitrary: m l)
  case Nil
  then show ?case by (simp add: restarts_in_simps)
next
  case (Cons ob obs)
  show ?case
  proof (cases "running m")
    case False
    then show ?thesis by (simp add: restarts_in_simps)
  next
    case True
    obtain m1 ev1 where tk: "tick ob m = (m1, ev1)" by (cases "tick ob m")
    have l_ob: "month_le l (now ob)" using Cons.prems(3) by simp
    have here: "restarts_in (year q) (month q) ev1 = 0"
    proof (cases "year (now ob) = year q \<and> month (now ob) = month q")
      case same: True
      then have "month_le (now ob) q" by (simp add: month_le_def)
      then have "month_le (now ob) l" using Cons.prems(2) by (rule month_le_trans)
      with l_ob have "year l = year (now ob) \<and> month l = month (now ob)"
        by (rule month_le_antisym)
      with Cons.prems(1) have "\<not> monthly_restart_due (now ob) m"
        by (simp add: not_due_same_month)
      then show ?thesis
        using tick_frame(3) [of "year q" "month q" ob m] tk by simp
    next
      case False
      then show ?thesis
        using tick_frame(3) [of "year q" "month q" ob m] tk by auto
    qed
    obtain l' where l': "last_monthly_restart m1 = Some l'" "l' = l \<or> l' = now ob"
      using tick_frame(1) [of ob m] tk Cons.prems(1) by (auto split: if_splits)
    have q_l': "month_le q l'"
      using l'(2) Cons.prems(2) l_ob by (auto intro: month_le_trans)
    have sorted: "\<forall>ob' \<in> set obs. month_le (now ob) (now ob')" "chronological obs"
      using Cons.prems(4) by (simp_all add: chronological_def)
    have later: "\<forall>ob' \<in> set obs. month_le l' (now ob')"
      using l'(2) Cons.prems(3) sorted(1) by auto
    have rest: "restarts_in (year q) (month q) (snd (monitor_services obs m1)) = 0"
      using Cons.IH [OF l'(1) q_l' later sorted(2)] .
    have step: "snd (monitor_services (ob # obs) m) = ev1 @ snd (monitor_services obs m1)"
      using monitor_services_step [OF True, of ob obs] unfolding tk fst_conv snd_conv .
    show ?thesis
      using here rest by (simp only: step restarts_in_append)
  qed
qed

lemma at_most_one_restart:
  assumes "chronological obs"
  shows "restarts_in y mo (snd (monitor_services obs m)) \<le> 1"
  using assms
proof (induction obs arbitrary: m)
  case Nil
  then show ?case by (simp add: restarts_in_simps)
next
  case (Cons ob obs)
  show ?case
  proof (cases "running m")
    case False
    then show ?thesis by (simp add: restarts_in_simps)
  next
    case True
    obtain m1 ev1 where tk: "tick ob m = (m1, ev1)" by (cases "tick ob m")
    have sorted: "\<forall>ob' \<in> set obs. month_le (now ob) (now ob')" "chronological obs"
      using Cons.prems by (simp_all add: chronological_def)
    have total: "restarts_in y mo (snd (monitor_services (ob # obs) m))
        = restarts_in y mo ev1 + restarts_in y mo (snd (monitor_services obs m1))"
      using monitor_services_step [OF True, of ob obs] unfolding tk fst_conv snd_conv
      by (simp only: restarts_in_append)
    show ?thesis
    proof (cases "job_due ob \<and> monthly_restart_due (now ob) m \<and> year (now ob) = y \<and> month (now ob) = mo")
      case fired: True
      then have mark: "last_monthly_restart m1 = Some (now ob)"
        using tick_frame(1) [of ob m] tk by simp
      have "restarts_in (year (now ob)) (month (now ob)) (snd (monitor_services obs m1)) = 0"
        using no_restart_after_mark [OF mark month_le_refl sorted] .
      moreover have "restarts_in y mo ev1 = 1"
        using fired tick_frame(3) [of y mo ob m] tk by simp
      ultimately show ?thesis using fired total by simp
    next
      case False
      then have "restarts_in y mo ev1 = 0"
        using tick_frame(3) [of y mo ob m] tk by auto
      then show ?thesis using total Cons.IH [OF sorted(2), of m1] by simp
    qed
  qed
qed

lemma monday_is_first_monday: "date_of first_monday_nov = date_of (first_monday first_monday_nov)"
  by (simp add: first_monday_nov_def date_of_def first_monday_def first_day_def weekday_def
      toordinal_def days_before_year_def days_before_month_def is_leap_def Let_def)

lemma monday_due: "monthly_restart_due first_monday_nov manager_up"
  using monday_is_first_monday
  by (simp add: monthly_restart_due_def manager_up_def init_manager_def)

lemma two_monday_ticks:
  "restarts_in 2026 11 (snd (monitor_services [monday_tick, monday_tick] manager_up)) = 1"
proof -
  have r: "running manager_up" by (simp add: manager_up_def)
  have r1: "running (fst (tick monday_tick manager_up))"
    using r by (simp add: tick_frame)
  have fired: "restarts_in 2026 11 (snd (tick monday_tick manager_up)) = 1"
    using monday_due by (simp add: tick_frame monday_tick_def first_monday_nov_def)
  have mark: "last_monthly_restart (fst (tick monday_tick manager_up)) = Some first_monday_nov"
    using monday_due by (simp add: tick_frame monday_tick_def)
  have "\<not> monthly_restart_due first_monday_nov (fst (tick monday_tick manager_up))"
    using mark by (simp add: not_due_same_month)
  then have quiet: "restarts_in 2026 11 (snd (tick monday_tick (fst (tick monday_tick manager_up)))) = 0"
    by (simp add: tick_frame monday_tick_def)
  have "snd (monitor_services [monday_tick, monday_tick] manager_up)
      = snd (tick monday_tick manager_up)
        @ snd (tick monday_tick (fst (tick monday_tick manager_up))) @ []"
    unfolding monitor_services_step [OF r] monitor_services_step [OF r1] by simp
  then show ?thesis
    using fired quiet by (simp only: restarts_in_append restarts_in_simps)
qed

lemma restart_all_interrupted_mark:
  "last_monthly_restart (restart_all_interrupted ct c m) = last_monthly_restart m"
  by (cases ct)
     (simp_all add: restart_all_interrupted_def Let_def stop_all_services_frame
        restart_all_services_frame)

subsection \<open>What the loop sleeps between two passes\<close>

lemma monitor_service_settled:
  assumes "settled s"
  shows "settled (fst (monitor_service ob s)) \<and>
         (\<forall>n. Sleep n \<in> set (snd (monitor_service ob s)) \<longrightarrow> n = 2 \<or> n = 5)"
  using assms
  by (auto simp: settled_def monitor_service_def check_service_health_def start_service_def
        truthy_def Let_def split: option.splits if_splits)

lemma monitor_passes_sleeps:
  assumes "settled s"
  shows "\<forall>n. Sleep n \<in> set (snd (monitor_passes obs s)) \<longrightarrow> n = 2 \<or> n = 5"
  using assms
proof (induction obs arbitrary: s)
  case Nil
  then show ?case by simp
next
  case (Cons ob obs)
  obtain s1 ev1 where one: "monitor_service ob s = (s1, ev1)"
    by (cases "monitor_service ob s")
  obtain s2 ev2 where more: "monitor_passes obs s1 = (s2, ev2)"
    by (cases "monitor_passes obs s1")
  from monitor_service_settled [OF Cons.prems, of ob] one
  have s1: "settled s1" and ev1: "\<forall>n. Sleep n \<in> set ev1 \<longrightarrow> n = 2 \<or> n = 5"
    by simp_all
  from Cons.IH [OF s1] more have ev2: "\<forall>n. Sleep n \<in> set ev2 \<longrightarrow> n = 2 \<or> n = 5"
    by simp
  show ?case using ev1 ev2 by (auto simp: one more)
qed

lemma web_server_up_settled: "settled web_server_up"
  by (simp add: settled_def web_server_up_fields truthy_def)

subsection \<open>Restart delays in the monitoring loop\<close>

text \<open>
  Claim C1 asks for restart attempts after 1, 2 and 4 seconds over three consecutive
  failures, and for a 60 second wait after a fourth. The loop is written as an
  exponential backoff on the consecutive-failure count, with a longer wait before the
  retry of a service that keeps failing, and it does neither. A web server that is
  running with no failure counted is found dead in three passes in a row. When each
  restart survives its five seconds, the loop sleeps 2 seconds before every one of the
  three restarts, since a successful start resets the count. When each restarted process
  exits with code 1 within the five seconds, the loop sleeps 2 seconds, makes one
  attempt, and makes no further attempt in the next three passes: the failed start
  leaves the status \<^verbatim>\<open>error\<close>, which the loop never restarts. By \<open>monitor_passes_sleeps\<close>
  no sequence of passes from such a record sleeps 1, 4, 8 or 60 seconds.
\<close>

theorem monitor_passes_constant_delay:
  "snd (monitor_passes
          [crash_then (launch_ok 4243), crash_then (launch_ok 4244), crash_then (launch_ok 4245)]
          web_server_up)
     = [Sleep 2, PopenCall ''/srv/DBSBMWEB'' ''flask_service.py'', Sleep 5,
        Sleep 2, PopenCall ''/srv/DBSBMWEB'' ''flask_service.py'', Sleep 5,
        Sleep 2, PopenCall ''/srv/DBSBMWEB'' ''flask_service.py'', Sleep 5] \<and>
   snd (monitor_passes
          [crash_then (launch_exits 4243 1), crash_then (launch_exits 4244 1),
           crash_then (launch_exits 4245 1), crash_then (launch_exits 4246 1)]
          web_server_up)
     = [Sleep 2, PopenCall ''/srv/DBSBMWEB'' ''flask_service.py'', Sleep 5] \<and>
   status (fst (monitor_passes
          [crash_then (launch_exits 4243 1), crash_then (launch_exits 4244 1),
           crash_then (launch_exits 4245 1), crash_then (launch_exits 4246 1)]
          web_server_up)) = ''error'' \<and>
   consecutive_failures (fst (monitor_passes
          [crash_then (launch_exits 4243 1), crash_then (launch_exits 4244 1),
           crash_then (launch_exits 4245 1), crash_then (launch_exits 4246 1)]
          web_server_up)) = 2"
  by (simp add: monitor_service_def check_service_health_def start_service_def
      crash_then_def found_dead_def launch_ok_def launch_exits_def web_server_up_eq
      web_server_def new_service_def truthy_def Let_def)

subsection \<open>The backoff delay\<close>

text \<open>
  Claim C2. The delay of the restart policy is a function of the consecutive-failure
  count alone: for a count of at most 3 it is \<open>2 ^ n\<close> seconds, which is also
  \<open>min (2 ^ n) 60\<close>; beyond 3 it is the fixed 60 seconds; it is 1 at 0, 8 at 3 and 60 at
  4; and it does not decrease up to the threshold. It is the sleep that the monitoring
  loop takes when the health check has just counted a failure.
\<close>

theorem backoff_delay_spec:
  "(n \<le> 3 \<longrightarrow> backoff_delay n = min (2 ^ n) 60) \<and>
   (3 < k \<longrightarrow> backoff_delay k = 60) \<and>
   backoff_delay 0 = 1 \<and> backoff_delay 3 = 8 \<and> backoff_delay 4 = 60 \<and>
   (m \<le> n \<and> n \<le> 3 \<longrightarrow> backoff_delay m \<le> backoff_delay n) \<and>
   (truthy (pid s) \<and> \<not> alive (health ob) \<longrightarrow>
      hd (snd (monitor_service ob s)) = Sleep (backoff_delay (consecutive_failures s + 1)))"
proof (intro conjI impI)
  assume "n \<le> 3"
  then show "backoff_delay n = min (2 ^ n) 60"
    using pow2_le_60 [of n] by (simp add: backoff_delay_def min_def)
next
  assume "3 < k"
  then show "backoff_delay k = 60" by (simp add: backoff_delay_def)
next
  show "backoff_delay 0 = 1" by (simp add: backoff_delay_def)
  show "backoff_delay 3 = 8" by (simp add: backoff_delay_def)
  show "backoff_delay 4 = 60" by (simp add: backoff_delay_def)
next
  assume "m \<le> n \<and> n \<le> 3"
  then show "backoff_delay m \<le> backoff_delay n"
    by (simp add: backoff_delay_def power_increasing)
next
  assume h: "truthy (pid s) \<and> \<not> alive (health ob)"
  show "hd (snd (monitor_service ob s)) = Sleep (backoff_delay (consecutive_failures s + 1))"
    using h
    by (simp add: monitor_service_def check_health_dead backoff_delay_def split: prod.splits)
qed

theorem backoff_delay_spec_witness:
  "(2::nat) \<le> 3 \<and> backoff_delay 2 = min (2 ^ 2) 60 \<and>
   (3::nat) < 5 \<and> backoff_delay 5 = 60 \<and>
   (1::nat) \<le> 2 \<and> backoff_delay 1 \<le> backoff_delay 2 \<and>
   truthy (pid web_server_up) \<and> \<not> alive (health (crash_then (launch_ok 4243))) \<and>
   hd (snd (monitor_service (crash_then (launch_ok 4243)) web_server_up)) = Sleep 2"
  using backoff_delay_spec [where n = 2 and k = 5 and m = 1 and s = web_server_up
      and ob = "crash_then (launch_ok 4243)"]
  by (simp add: web_server_up_fields truthy_def crash_then_def found_dead_def
      backoff_delay_def)

subsection \<open>The monthly restart happens at most once a month\<close>

text \<open>
  Claim C3. Once \<^verbatim>\<open>last_monthly_restart\<close> refers to the month and year of today,
  \<^verbatim>\<open>check_monthly_restart\<close> changes nothing and starts no restart cycle. In a run of the
  monitoring loop whose clock does not go back over a month, the trace holds at most one
  scheduled restart for any calendar month, however many iterations find the job pending
  on the first Monday.
\<close>

theorem monthly_restart_at_most_once:
  "(last_monthly_restart m = Some l \<and> month l = month today \<and> year l = year today \<longrightarrow>
      check_monthly_restart today c m = (m, [])) \<and>
   (chronological obs \<longrightarrow> restarts_in y mo (snd (monitor_services obs m')) \<le> 1)"
  using not_due_same_month [of m l today] at_most_one_restart [of obs y mo m']
  by (auto simp: check_monthly_restart_def)

theorem monthly_restart_at_most_once_witness:
  "last_monthly_restart (manager_up\<lparr>last_monthly_restart := Some first_monday_nov\<rparr>)
     = Some first_monday_nov \<and>
   date_of first_monday_nov = date_of (first_monday first_monday_nov) \<and>
   check_monthly_restart first_monday_nov quiet_cycle
       (manager_up\<lparr>last_monthly_restart := Some first_monday_nov\<rparr>)
     = (manager_up\<lparr>last_monthly_restart := Some first_monday_nov\<rparr>, []) \<and>
   chronological [monday_tick, monday_tick] \<and>
   restarts_in 2026 11 (snd (monitor_services [monday_tick, monday_tick] manager_up)) = 1"
  using monthly_restart_at_most_once
      [of "manager_up\<lparr>last_monthly_restart := Some first_monday_nov\<rparr>" first_monday_nov
          first_monday_nov quiet_cycle "[monday_tick, monday_tick]" 2026 11 manager_up]
    monday_is_first_monday two_monday_ticks
  by (simp add: chronological_def month_le_def)

subsection \<open>The process handle and the status\<close>

text \<open>
  Claim C4 asks that a stopped service keeps no process handle. The web server is started
  and runs; its process then exits by itself, and \<^verbatim>\<open>stop_service\<close> is called before any
  health check (as \<^verbatim>\<open>stop_all_services\<close> does at shutdown and in a monthly restart). The
  ``not running'' branch sets the status to \<^verbatim>\<open>stopped\<close> and clears the pid, and leaves the
  \<^verbatim>\<open>Popen\<close> object in the record. The other branch of \<^verbatim>\<open>stop_service\<close> and the health check
  both clear it.
\<close>

theorem stop_service_keeps_exited_handle:
  "status web_server_up = ''running'' \<and> process web_server_up = Some (Popen 4242) \<and>
   stop_service already_exited web_server_up
     = (True, web_server_up\<lparr>status := ''stopped'', pid := None\<rparr>, []) \<and>
   status (fst (snd (stop_service already_exited web_server_up))) = ''stopped'' \<and>
   process (fst (snd (stop_service already_exited web_server_up))) = Some (Popen 4242) \<and>
   process (fst (snd (stop_service stop_clean web_server_up))) = None \<and>
   process (snd (check_service_health found_dead web_server_up)) = None"
  by (simp add: stop_service_def already_exited_def stop_clean_def check_service_health_def
      found_dead_def truthy_def web_server_up_fields)

subsection \<open>Stopping a stopped service\<close>

text \<open>
  Claim C5. For a service with no live process (no process object stored, or one that
  \<^verbatim>\<open>poll\<close> reports as exited), \<^verbatim>\<open>stop_service\<close> returns \<^verbatim>\<open>True\<close>, sends no signal and
  leaves the status \<^verbatim>\<open>stopped\<close>; a second call does the same and changes nothing more.
\<close>

theorem stop_service_idempotent:
  assumes "process s = None \<or> poll ob1 \<noteq> None"
    and "process s = None \<or> poll ob2 \<noteq> None"
  shows "stop_service ob1 s = (True, s\<lparr>status := ''stopped'', pid := None\<rparr>, []) \<and>
         stop_service ob2 (fst (snd (stop_service ob1 s)))
           = (True, s\<lparr>status := ''stopped'', pid := None\<rparr>, []) \<and>
         status (fst (snd (stop_service ob1 s))) = ''stopped'' \<and>
         status (fst (snd (stop_service ob2 (fst (snd (stop_service ob1 s)))))) = ''stopped''"
proof -
  have first: "stop_service ob1 s = (True, s\<lparr>status := ''stopped'', pid := None\<rparr>, [])"
    using assms(1) by (auto simp: stop_service_def split: option.splits)
  have second: "stop_service ob2 (s\<lparr>status := ''stopped'', pid := None\<rparr>)
      = (True, s\<lparr>status := ''stopped'', pid := None\<rparr>, [])"
    using assms(2) by (auto simp: stop_service_def split: option.splits)
  show ?thesis by (simp add: first second)
qed

theorem stop_service_idempotent_witness:
  "process web_server = None \<and>
   stop_service stop_clean web_server
     = (True, web_server\<lparr>status := ''stopped'', pid := None\<rparr>, []) \<and>
   stop_service stop_clean (fst (snd (stop_service stop_clean web_server)))
     = (True, web_server\<lparr>status := ''stopped'', pid := None\<rparr>, []) \<and>
   poll already_exited = Some 1 \<and>
   stop_service already_exited web_server_up
     = (True, web_server_up\<lparr>status := ''stopped'', pid := None\<rparr>, []) \<and>
   stop_service already_exited (fst (snd (stop_service already_exited web_server_up)))
     = (True, web_server_up\<lparr>status := ''stopped'', pid := None\<rparr>, [])"
proof -
  have none: "process web_server = None"
    by (simp add: web_server_def new_service_def)
  have exited: "poll already_exited = Some 1"
    by (simp add: already_exited_def)
  then have dead: "process web_server_up = None \<or> poll already_exited \<noteq> None"
    by simp
  show ?thesis
    using stop_service_idempotent [of web_server stop_clean stop_clean]
      stop_service_idempotent [OF dead dead] none exited
    by blast
qed

subsection \<open>The five seconds after a launch\<close>




subsection \<open>The persisted restart count\<close>




subsection \<open>A missing script\<close>

text \<open>
  Claim C8. \<^verbatim>\<open>start_service\<close> returns success at once for a service that is already
  running, and otherwise verifies the script. For a service that reaches this check and
  whose script does not exist, \<^verbatim>\<open>start_service\<close> returns \<^verbatim>\<open>False\<close>, sets the status to
  \<^verbatim>\<open>error\<close>, adds exactly one to the consecutive-failure count and calls \<^verbatim>\<open>Popen\<close> not
  at all; the process handle, the pid and every other field stay as they were, so a
  handle that was null stays null.
\<close>

theorem start_service_missing_script:
  assumes "\<not> (truthy (pid s) \<and> pid_running ob)" and "\<not> script_exists ob"
  shows "start_service ob s =
           (False, s\<lparr>status := ''error'',
                     consecutive_failures := consecutive_failures s + 1\<rparr>, []) \<and>
         process (fst (snd (start_service ob s))) = process s \<and>
         pid (fst (snd (start_service ob s))) = pid s \<and>
         popen_calls (snd (snd (start_service ob s))) = 0"
  using assms by (simp add: start_service_def popen_calls_def)

theorem start_service_missing_script_witness:
  "\<not> (truthy (pid web_server) \<and> pid_running script_missing) \<and>
   \<not> script_exists script_missing \<and>
   start_service script_missing web_server =
     (False, web_server\<lparr>status := ''error'', consecutive_failures := 1\<rparr>, []) \<and>
   process (fst (snd (start_service script_missing web_server))) = None"
  using start_service_missing_script [of web_server script_missing]
  by (simp add: script_missing_def web_server_def new_service_def)

subsection \<open>What a health check changes\<close>

text \<open>
  A health check of a stopped service with no handle and no pid is not a no-op: it
  stamps \<^verbatim>\<open>last_health_check\<close>.
\<close>

theorem check_service_health_noop_counterexample:
  "process web_server = None \<and> pid web_server = None \<and> status web_server = ''stopped'' \<and>
   snd (check_service_health found_alive web_server) \<noteq> web_server \<and>
   last_health_check web_server = None \<and>
   last_health_check (snd (check_service_health found_alive web_server))
     = Some ''2026-11-02T09:00:35''"
proof -
  have lhc: "last_health_check (snd (check_service_health found_alive web_server))
     = Some ''2026-11-02T09:00:35''"
    by (simp add: check_service_health_def found_alive_def web_server_def new_service_def
        truthy_def)
  have lhc0: "last_health_check web_server = None"
    by (simp add: web_server_def new_service_def)
  from lhc lhc0 have "snd (check_service_health found_alive web_server) \<noteq> web_server"
    by auto
  with lhc lhc0 show ?thesis by (simp add: web_server_def new_service_def)
qed

text \<open>
  Claim C9, as the code has it. For a service with no pid recorded, a health check returns
  \<^verbatim>\<open>False\<close> and changes \<^verbatim>\<open>last_health_check\<close> only. For a service whose recorded process
  is found not alive, it returns \<^verbatim>\<open>False\<close>, sets the status to \<^verbatim>\<open>died\<close>, clears the
  handle and the pid, adds exactly one to the consecutive-failure count and stamps
  \<^verbatim>\<open>last_health_check\<close>; the name, the script, the working directory, the Python path,
  the restart count and the time of the last restart stay as they were.
\<close>

theorem check_service_health_frame:
  "(\<not> truthy (pid s) \<longrightarrow>
      check_service_health ob s = (False, s\<lparr>last_health_check := Some (checked_at ob)\<rparr>)) \<and>
   (truthy (pid u) \<and> \<not> alive ob \<longrightarrow>
      check_service_health ob u =
        (False, u\<lparr>last_health_check := Some (checked_at ob), status := ''died'',
                  pid := None, process := None,
                  consecutive_failures := consecutive_failures u + 1\<rparr>) \<and>
      (let u' = snd (check_service_health ob u)
       in status u' = ''died'' \<and> process u' = None \<and> pid u' = None \<and>
          consecutive_failures u' = consecutive_failures u + 1 \<and>
          name u' = name u \<and> script u' = script u \<and> working_dir u' = working_dir u \<and>
          python_path u' = python_path u \<and> restart_count u' = restart_count u \<and>
          last_restart u' = last_restart u))"
  by (simp add: check_service_health_def Let_def)

theorem check_service_health_frame_witness:
  "\<not> truthy (pid web_server) \<and>
   check_service_health found_dead web_server
     = (False, web_server\<lparr>last_health_check := Some ''2026-11-02T09:00:35''\<rparr>) \<and>
   truthy (pid web_server_up) \<and> \<not> alive found_dead \<and>
   check_service_health found_dead web_server_up =
     (False, web_server_up\<lparr>last_health_check := Some ''2026-11-02T09:00:35'',
        status := ''died'', pid := None, process := None, consecutive_failures := 1\<rparr>)"
  using check_service_health_frame [of web_server found_dead web_server_up]
  by (simp add: web_server_up_fields truthy_def found_dead_def web_server_def new_service_def)

subsection \<open>The status records a restart cycle writes\<close>

lemma status_writes_append: "status_writes (a @ b) = status_writes a @ status_writes b"
  by (simp add: status_writes_def)

lemma status_writes_simps:
  "status_writes [] = []"
  "status_writes (Sleep n # evs) = status_writes evs"
  "status_writes (PopenCall x y # evs) = status_writes evs"
  "status_writes (Terminate p # evs) = status_writes evs"
  "status_writes (Kill p # evs) = status_writes evs"
  "status_writes (WriteStatus d # evs) = d # status_writes evs"
  "status_writes (ScheduledRestart t # evs) = status_writes evs"
  by (simp_all add: status_writes_def)

lemma status_writes_start_service: "status_writes (snd (snd (start_service ob s))) = []"
  by (simp add: start_service_def status_writes_simps split: option.splits)

lemma status_writes_stop_service: "status_writes (snd (snd (stop_service ob s))) = []"
  by (simp add: stop_service_def status_writes_simps split: option.splits stop_outcome.splits)

lemma status_writes_stop_each: "status_writes (snd (stop_each f xs)) = []"
proof (induction xs)
  case Nil
  then show ?case by (simp add: status_writes_simps)
next
  case (Cons x xs)
  obtain k s where x: "x = (k, s)" by (cases x)
  show ?case
    using Cons.IH status_writes_stop_service [of "f k" s]
    by (cases "stop_service (f k) s"; cases "stop_each f xs")
       (simp add: x status_writes_append)
qed

lemma status_writes_start_each: "status_writes (snd (snd (start_each f xs))) = []"
proof (induction xs)
  case Nil
  then show ?case by (simp add: status_writes_simps)
next
  case (Cons x xs)
  obtain k s where x: "x = (k, s)" by (cases x)
  show ?case
    using Cons.IH status_writes_start_service [of "f k" s]
    by (cases "start_service (f k) s"; cases "start_each f xs")
       (simp add: x status_writes_append)
qed

lemma status_writes_update_status:
  "status_writes (update_status w m) = (if write_ok w then [build_status w m] else [])"
  by (simp add: update_status_def status_writes_simps)

lemma status_writes_stop_all:
  "status_writes (snd (stop_all_services f w m))
     = (if write_ok w then [build_status w (fst (stop_all_services f w m))] else [])"
  using status_writes_stop_each [of f "services m"]
  by (cases "stop_each f (services m)")
     (simp add: stop_all_services_def Let_def status_writes_append status_writes_update_status)

lemma status_writes_start_all:
  "status_writes (snd (snd (start_all_services f w m)))
     = (if write_ok w then [build_status w (fst (snd (start_all_services f w m)))] else [])"
  using status_writes_start_each [of f "services m"]
  by (cases "start_each f (services m)")
     (simp add: start_all_services_def Let_def status_writes_append status_writes_update_status)

lemma status_writes_restart_all:
  "status_writes (snd (restart_all_services c m))
     = (if write_ok (write_after_stop c)
        then [build_status (write_after_stop c)
                (fst (stop_all_services (stop_of c) (write_after_stop c) m))]
        else [])
       @ (if write_ok (write_after_start c)
          then [build_status (write_after_start c) (fst (restart_all_services c m))]
          else [])"
proof -
  obtain m1 ev1 where st: "stop_all_services (stop_of c) (write_after_stop c) m = (m1, ev1)"
    by (cases "stop_all_services (stop_of c) (write_after_stop c) m")
  obtain r m2 ev2 where sa: "start_all_services (start_of c) (write_after_start c) m1 = (r, m2, ev2)"
    by (cases "start_all_services (start_of c) (write_after_start c) m1")
  have eq: "restart_all_services c m = (m2, ev1 @ [Sleep 5] @ ev2)"
    by (simp add: restart_all_services_def st sa)
  have a: "status_writes ev1
      = (if write_ok (write_after_stop c) then [build_status (write_after_stop c) m1] else [])"
    using status_writes_stop_all [of "stop_of c" "write_after_stop c" m] by (simp add: st)
  have b: "status_writes ev2
      = (if write_ok (write_after_start c) then [build_status (write_after_start c) m2] else [])"
    using status_writes_start_all [of "start_of c" "write_after_start c" m1] by (simp add: sa)
  show ?thesis
    by (simp add: eq st a b status_writes_append status_writes_simps)
qed

lemma build_status_mark:
  "sd_last_monthly_restart (build_status w m) = last_monthly_restart m"
  by (simp add: build_status_def)

subsection \<open>The month is marked before the restart cycle\<close>

text \<open>
  Claim C10. When a monthly restart is due, \<^verbatim>\<open>check_monthly_restart\<close> records
  \<^verbatim>\<open>last_monthly_restart = today\<close> before it calls \<^verbatim>\<open>restart_all_services\<close>: the cycle
  runs on the marked manager, so every status record that the cycle writes, the one after
  the stops and the one after the starts, already carries today as the last monthly
  restart, and so does the manager the call leaves. Wherever the cycle is cut short, and
  also when it completes, the field holds today, and a later check in the same month and
  year changes nothing and starts no cycle.
\<close>

theorem monthly_mark_precedes_cycle:
  assumes "monthly_restart_due today m"
  shows "check_monthly_restart today c m
           = (fst (restart_all_services c (m\<lparr>last_monthly_restart := Some today\<rparr>)),
              ScheduledRestart today
                # snd (restart_all_services c (m\<lparr>last_monthly_restart := Some today\<rparr>))) \<and>
         status_writes (snd (check_monthly_restart today c m))
           = (if write_ok (write_after_stop c)
              then [build_status (write_after_stop c)
                      (fst (stop_all_services (stop_of c) (write_after_stop c)
                              (m\<lparr>last_monthly_restart := Some today\<rparr>)))]
              else [])
             @ (if write_ok (write_after_start c)
                then [build_status (write_after_start c) (fst (check_monthly_restart today c m))]
                else []) \<and>
         (\<forall>d \<in> set (status_writes (snd (check_monthly_restart today c m))).
            sd_last_monthly_restart d = Some today) \<and>
         last_monthly_restart (fst (check_monthly_restart today c m)) = Some today \<and>
         check_monthly_restart_interrupted (InStopAll 0) today c m
           = m\<lparr>last_monthly_restart := Some today\<rparr> \<and>
         check_monthly_restart_interrupted Completed today c m
           = fst (check_monthly_restart today c m) \<and>
         last_monthly_restart (check_monthly_restart_interrupted ct today c m) = Some today \<and>
         (year t = year today \<and> month t = month today \<longrightarrow>
            check_monthly_restart t c' (check_monthly_restart_interrupted ct today c m)
              = (check_monthly_restart_interrupted ct today c m, []))"
proof -
  let ?marked = "m\<lparr>last_monthly_restart := Some today\<rparr>"
  let ?m' = "check_monthly_restart_interrupted ct today c m"
  have run: "check_monthly_restart today c m
      = (fst (restart_all_services c ?marked),
         ScheduledRestart today # snd (restart_all_services c ?marked))"
    using assms by (simp add: check_monthly_restart_def split: prod.splits)
  have writes: "status_writes (snd (check_monthly_restart today c m))
      = (if write_ok (write_after_stop c)
         then [build_status (write_after_stop c)
                 (fst (stop_all_services (stop_of c) (write_after_stop c) ?marked))]
         else [])
        @ (if write_ok (write_after_start c)
           then [build_status (write_after_start c) (fst (check_monthly_restart today c m))]
           else [])"
    by (simp add: run status_writes_simps status_writes_restart_all)
  have final: "last_monthly_restart (fst (check_monthly_restart today c m)) = Some today"
    by (simp add: run restart_all_services_frame)
  have carried: "\<forall>d \<in> set (status_writes (snd (check_monthly_restart today c m))).
      sd_last_monthly_restart d = Some today"
    unfolding writes using final
    by (auto simp: build_status_mark stop_all_services_frame)
  have mark: "last_monthly_restart ?m' = Some today"
    using assms by (simp add: check_monthly_restart_interrupted_def restart_all_interrupted_mark)
  have first: "check_monthly_restart_interrupted (InStopAll 0) today c m = ?marked"
    using assms by (simp add: check_monthly_restart_interrupted_def restart_all_interrupted_def)
  have whole: "check_monthly_restart_interrupted Completed today c m
      = fst (check_monthly_restart today c m)"
    using assms
    by (simp add: check_monthly_restart_interrupted_def restart_all_interrupted_def run)
  have again: "check_monthly_restart t c' ?m' = (?m', [])"
    if "year t = year today \<and> month t = month today"
    using not_due_same_month [OF mark, of t] that by (simp add: check_monthly_restart_def)
  show ?thesis using run writes carried final mark first whole again by blast
qed

theorem monthly_mark_precedes_cycle_witness:
  "monthly_restart_due first_monday_nov manager_up \<and>
   last_monthly_restart manager_up = None \<and>
   map sd_last_monthly_restart
     (status_writes (snd (check_monthly_restart first_monday_nov quiet_cycle manager_up)))
     = [Some first_monday_nov, Some first_monday_nov] \<and>
   last_monthly_restart (fst (check_monthly_restart first_monday_nov quiet_cycle manager_up))
     = Some first_monday_nov \<and>
   check_monthly_restart_interrupted (InStopAll 0) first_monday_nov quiet_cycle manager_up
     = manager_up\<lparr>last_monthly_restart := Some first_monday_nov\<rparr> \<and>
   last_monthly_restart
     (check_monthly_restart_interrupted (InStartAll 1) first_monday_nov quiet_cycle manager_up)
     = Some first_monday_nov \<and>
   check_monthly_restart first_monday_nov quiet_cycle
     (check_monthly_restart_interrupted (InStartAll 1) first_monday_nov quiet_cycle manager_up)
     = (check_monthly_restart_interrupted (InStartAll 1) first_monday_nov quiet_cycle manager_up, [])"
proof -
  note inst = monthly_mark_precedes_cycle [OF monday_due, where c = quiet_cycle
      and ct = "InStartAll 1" and t = first_monday_nov and c' = quiet_cycle]
  have w: "write_ok (write_after_stop quiet_cycle)" "write_ok (write_after_start quiet_cycle)"
    by (simp_all add: quiet_cycle_def writes_def)
  have none: "last_monthly_restart manager_up = None"
    by (simp add: manager_up_def init_manager_def)
  have marks: "map sd_last_monthly_restart
     (status_writes (snd (check_monthly_restart first_monday_nov quiet_cycle manager_up)))
     = [Some first_monday_nov, Some first_monday_nov]"
    using inst [THEN conjunct2, THEN conjunct1]
      inst [THEN conjunct2, THEN conjunct2, THEN conjunct2, THEN conjunct1] w
    by (simp add: build_status_mark stop_all_services_frame)
  have rest: "last_monthly_restart
       (fst (check_monthly_restart first_monday_nov quiet_cycle manager_up))
       = Some first_monday_nov \<and>
     check_monthly_restart_interrupted (InStopAll 0) first_monday_nov quiet_cycle manager_up
       = manager_up\<lparr>last_monthly_restart := Some first_monday_nov\<rparr> \<and>
     last_monthly_restart
       (check_monthly_restart_interrupted (InStartAll 1) first_monday_nov quiet_cycle manager_up)
       = Some first_monday_nov \<and>
     check_monthly_restart first_monday_nov quiet_cycle
       (check_monthly_restart_interrupted (InStartAll 1) first_monday_nov quiet_cycle manager_up)
       = (check_monthly_restart_interrupted (InStartAll 1) first_monday_nov quiet_cycle manager_up, [])"
    using inst by blast
  show ?thesis using monday_due none marks rest by blast
qed

end
